theory Spec2Isabelle
  imports Complex_Main
begin

section \<open>Source types (src/converter.ts, Octomind API)\<close>

text \<open>
  A JavaScript \<open>number\<close> where it comes from \<open>parseInt\<close> or from a \<open>Date\<close>: an
  integer (a count, epoch milliseconds) or \<open>NaN\<close>, which \<open>new Date(s).getTime()\<close> and
  \<open>parseInt\<close> return on text they cannot read.
\<close>

datatype number = Num int | NaN

text \<open>
  A JavaScript \<open>number\<close> in general, an IEEE 754 double: a finite value (every finite
  double is a real number; durations come from JSON and may be fractions), an infinity or
  \<open>NaN\<close>. The sum of two doubles is rounded by the platform, so \<open>+\<close> is not defined
  here: it is the field \<open>plusDouble\<close> of the platform record \<open>runtime\<close> below.
\<close>

datatype double = Val real | PlusInfinity | MinusInfinity | NotANumber

text \<open>
  The time of a \<open>Date\<close> as a double. A \<open>Date\<close> holds an integer of at most
  8.64e15 in magnitude (below \<open>2^53\<close>) or \<open>NaN\<close>, so nothing is rounded here.
\<close>

fun toDouble :: "number \<Rightarrow> double" where
  "toDouble (Num k) = Val (real_of_int k)"
| "toDouble NaN = NotANumber"

text \<open>\<open>a <= b\<close> on doubles: every comparison with \<open>NaN\<close> is false.\<close>

fun le :: "double \<Rightarrow> double \<Rightarrow> bool" where
  "le NotANumber b = False"
| "le a NotANumber = False"
| "le MinusInfinity b = True"
| "le a PlusInfinity = True"
| "le (Val a) (Val b) = (a \<le> b)"
| "le a b = False"

text \<open>\<open>d || 0\<close>: an absent number, \<open>NaN\<close> and \<open>0\<close> are falsy.\<close>

fun orZero :: "double option \<Rightarrow> double" where
  "orZero None = Val 0"
| "orZero (Some NotANumber) = Val 0"
| "orZero (Some d) = d"

text \<open>Truthiness of an optional string: \<open>undefined\<close> and the empty string are falsy.\<close>

definition truthy :: "string option \<Rightarrow> bool" where
  "truthy s = (case s of None \<Rightarrow> False | Some t \<Rightarrow> t \<noteq> [])"

text \<open>
  The interfaces of the source. Field names carry the record's name as a prefix, since
  several interfaces share the names \<open>id\<close>, \<open>name\<close>, \<open>status\<close>. A status is the
  string the API sent (the TypeScript union is not checked at run time).
\<close>

record OctomindTestStep =
  step_name :: string
  step_status :: string
  step_duration :: "double option"
  step_error :: "string option"

record OctomindTestResult =
  result_id :: string
  result_testTargetId :: string
  result_testCaseId :: string
  result_status :: string
  result_traceUrl :: "string option"
  result_error :: "string option"
  result_stackTrace :: "string option"
  result_duration :: "double option"
  result_createdAt :: "string option"
  result_updatedAt :: "string option"
  result_steps :: "OctomindTestStep list option"

record OctomindTestReport =
  report_id :: string
  report_testTargetId :: string
  report_status :: string
  report_executionUrl :: string
  report_createdAt :: "string option"
  report_startedAt :: "string option"
  report_finishedAt :: "string option"
  report_breakpoint :: "string option"
  report_browserType :: "string option"
  report_testResults :: "OctomindTestResult list"

record OctomindTestCaseTag =
  tag_id :: string
  tag_type :: string
  tag_value :: string
  tag_environmentId :: string
  tag_testTargetId :: string

record OctomindTestCase =
  case_id :: string
  case_name :: string
  case_description :: "string option"
  case_tags :: "OctomindTestCaseTag list option"
  case_externalId :: "string option"

text \<open>Of a test target the converter reads the identifier and the application name.\<close>

record OctomindTestTarget =
  target_id :: string
  target_app :: string

text \<open>A page of reports; \<open>page_key\<close> is \<open>page.key?.createdAt\<close>.\<close>

record OctomindTestReportsPage =
  page_data :: "OctomindTestReport list"
  page_key :: "string option"
  page_hasNextPage :: bool

section \<open>The remote service\<close>

text \<open>
  What \<open>fetch\<close> can do: reject (no response at all), or resolve to a response with its
  \<open>ok\<close> flag and its body, \<open>None\<close> when the body is not JSON (\<open>response.json()\<close>
  rejects). An endpoint gives the response to the n-th request sent so far, so a service
  that answers the same request differently over time is covered.
\<close>

datatype error = NetworkError | HttpError | JsonError

datatype 'a response = Rejected | Response bool "'a option"

type_synonym reportsEndpoint = "nat \<Rightarrow> string option \<Rightarrow> OctomindTestReportsPage response"

type_synonym caseEndpoint = "nat \<Rightarrow> string \<Rightarrow> string \<Rightarrow> OctomindTestCase response"

text \<open>
  \<open>fetchTestReports\<close>, for a fixed target and filter list: the cursor goes into the
  request only when it is truthy; a response that is not ok throws.
\<close>

definition fetchTestReports ::
  "reportsEndpoint \<Rightarrow> nat \<Rightarrow> string option \<Rightarrow> error + OctomindTestReportsPage" where
  "fetchTestReports http n keyCreatedAt =
     (case http n (if truthy keyCreatedAt then keyCreatedAt else None) of
        Rejected \<Rightarrow> Inl NetworkError
      | Response ok body \<Rightarrow>
          if \<not> ok then Inl HttpError
          else (case body of None \<Rightarrow> Inl JsonError | Some page \<Rightarrow> Inr page))"

section \<open>Pagination: fetchAllTestReports\<close>

text \<open>\<open>options?.maxReports || Infinity\<close>: absent, \<open>NaN\<close> and \<open>0\<close> all mean no maximum.\<close>

datatype limit = Finite int | Infinity

definition effectiveMax :: "number option \<Rightarrow> limit" where
  "effectiveMax m =
     (case m of
        None \<Rightarrow> Infinity
      | Some NaN \<Rightarrow> Infinity
      | Some (Num k) \<Rightarrow> if k = 0 then Infinity else Finite k)"

text \<open>\<open>n < maxReports\<close>, \<open>n >= maxReports\<close> and \<open>n > maxReports\<close> for a length \<open>n\<close>.\<close>

fun lt :: "nat \<Rightarrow> limit \<Rightarrow> bool" where
  "lt n Infinity = True"
| "lt n (Finite m) = (int n < m)"

fun ge :: "nat \<Rightarrow> limit \<Rightarrow> bool" where
  "ge n Infinity = False"
| "ge n (Finite m) = (int n \<ge> m)"

fun gt :: "nat \<Rightarrow> limit \<Rightarrow> bool" where
  "gt n Infinity = False"
| "gt n (Finite m) = (int n > m)"

text \<open>
  \<open>xs.slice(0, m)\<close>: a negative end counts from the end of the array. The call is made
  only with a finite maximum.
\<close>

fun slice0 :: "'a list \<Rightarrow> limit \<Rightarrow> 'a list" where
  "slice0 xs Infinity = xs"
| "slice0 xs (Finite m) =
     (if m < 0 then take (nat (int (length xs) + m)) xs else take (nat m) xs)"

text \<open>
  The variables of the loop, the lines written with \<open>console.warn\<close>, and the number of
  requests sent so far.
\<close>

record loop_state =
  allReports :: "OctomindTestReport list"
  hasNextPage :: bool
  keyCreatedAt :: "string option"
  seenIds :: "string set"
  warnings :: "string list"
  requests :: nat

definition initialState :: loop_state where
  "initialState =
     \<lparr>allReports = [], hasNextPage = True, keyCreatedAt = None, seenIds = {},
      warnings = [], requests = 0\<rparr>"

text \<open>The body of \<open>newReports.forEach\<close>.\<close>

definition addReport :: "loop_state \<Rightarrow> OctomindTestReport \<Rightarrow> loop_state" where
  "addReport s report =
     s\<lparr>seenIds := insert (report_id report) (seenIds s),
       allReports := allReports s @ [report]\<rparr>"

datatype 'a flow = Break 'a | Continue 'a | Throw error

text \<open>
  One run of the body of the \<open>while\<close> loop: \<open>Break\<close> for each \<open>break\<close>,
  \<open>Continue\<close> when the body runs to its end, \<open>Throw\<close> when \<open>fetchTestReports\<close> throws.
\<close>

definition loopBody :: "reportsEndpoint \<Rightarrow> limit \<Rightarrow> loop_state \<Rightarrow> loop_state flow" where
  "loopBody http maxReports s =
     (case fetchTestReports http (requests s) (keyCreatedAt s) of
        Inl e \<Rightarrow> Throw e
      | Inr page \<Rightarrow>
          let s0 = s\<lparr>requests := Suc (requests s)\<rparr>;
              newReports = filter (\<lambda>report. report_id report \<notin> seenIds s0) (page_data page)
          in if newReports = [] \<and> page_data page \<noteq> [] then
               Break (s0\<lparr>warnings := warnings s0 @
                 [''  Warning: Received duplicate reports, stopping pagination'']\<rparr>)
             else
               let s1 = foldl addReport s0 newReports;
                   s2 = s1\<lparr>hasNextPage := page_hasNextPage page\<rparr>;
                   s3 = (if hasNextPage s2 \<and> truthy (page_key page)
                         then s2\<lparr>keyCreatedAt := page_key page\<rparr> else s2)
               in if ge (length (allReports s3)) maxReports then Break s3
                  else if newReports = [] \<and> hasNextPage s3 then
                    Break (s3\<lparr>warnings := warnings s3 @
                      [''  Warning: No new reports but hasNextPage=true, stopping to prevent infinite loop'']\<rparr>)
                  else Continue s3)"

text \<open>
  The \<open>while\<close> loop. It need not end (a service can send fresh reports for ever when no
  maximum is set), so it runs on fuel: \<open>None\<close> is a loop still running when the fuel is
  spent, one unit per test of the loop condition.
\<close>

fun whileLoop ::
  "nat \<Rightarrow> reportsEndpoint \<Rightarrow> limit \<Rightarrow> loop_state \<Rightarrow> (error + loop_state) option" where
  "whileLoop 0 http maxReports s = None"
| "whileLoop (Suc fuel) http maxReports s =
     (if hasNextPage s \<and> lt (length (allReports s)) maxReports then
        (case loopBody http maxReports s of
           Throw e \<Rightarrow> Some (Inl e)
         | Break s' \<Rightarrow> Some (Inr s')
         | Continue s' \<Rightarrow> whileLoop fuel http maxReports s')
      else Some (Inr s))"

text \<open>After the loop: trim to the maximum when more was fetched.\<close>

definition trim :: "limit \<Rightarrow> OctomindTestReport list \<Rightarrow> OctomindTestReport list" where
  "trim maxReports reports =
     (if gt (length reports) maxReports then slice0 reports maxReports else reports)"

text \<open>
  The function from a given state of the loop on; it returns the reports and the
  warnings written.
\<close>

definition fetchAllFrom ::
  "nat \<Rightarrow> reportsEndpoint \<Rightarrow> limit \<Rightarrow> loop_state \<Rightarrow>
     (error + OctomindTestReport list \<times> string list) option" where
  "fetchAllFrom fuel http maxReports s =
     (case whileLoop fuel http maxReports s of
        None \<Rightarrow> None
      | Some (Inl e) \<Rightarrow> Some (Inl e)
      | Some (Inr s') \<Rightarrow> Some (Inr (trim maxReports (allReports s'), warnings s')))"

definition fetchAllTestReports ::
  "nat \<Rightarrow> reportsEndpoint \<Rightarrow> number option \<Rightarrow>
     (error + OctomindTestReport list \<times> string list) option" where
  "fetchAllTestReports fuel http maxReportsOption =
     fetchAllFrom fuel http (effectiveMax maxReportsOption) initialState"

section \<open>Target types (Allure)\<close>

datatype AllureStatus = passed | failed | broken | skipped | unknown

datatype AllureStage = scheduled | running | finished | pending | interrupted

text \<open>
  The optional fields the converter never sets (\<open>known\<close>, \<open>muted\<close>, \<open>flaky\<close>,
  \<open>attachments\<close>, \<open>parameters\<close>, the steps of a step) are left out.
\<close>

record AllureStatusDetails =
  details_message :: "string option"
  details_trace :: "string option"

record AllureLink =
  link_type :: string
  link_name :: string
  link_url :: string

record AllureLabel =
  label_name :: string
  label_value :: string

record AllureStep =
  astep_name :: string
  astep_status :: AllureStatus
  astep_statusDetails :: "AllureStatusDetails option"
  astep_stage :: AllureStage
  astep_start :: double
  astep_stop :: double

record AllureTestResult =
  allure_uuid :: string
  allure_historyId :: string
  allure_testCaseId :: "string option"
  allure_fullName :: string
  allure_name :: string
  allure_description :: "string option"
  allure_links :: "AllureLink list"
  allure_labels :: "AllureLabel list"
  allure_status :: AllureStatus
  allure_statusDetails :: "AllureStatusDetails option"
  allure_stage :: AllureStage
  allure_start :: number
  allure_stop :: number
  allure_steps :: "AllureStep list option"

section \<open>Translation\<close>

text \<open>
  What the translation takes from the platform: the identifier \<open>randomUUID()\<close> returns,
  the clock \<open>Date.now()\<close>, \<open>new Date(s).getTime()\<close> (\<open>NaN\<close> for a string that is
  no date), the hex MD5 digest of \<open>crypto\<close> and the sum \<open>a + b\<close> of two doubles (IEEE
  754 addition, rounded to the nearest double).
\<close>

record runtime =
  randomUUID :: string
  dateNow :: int
  dateParse :: "string \<Rightarrow> number"
  md5hex :: "string \<Rightarrow> string"
  plusDouble :: "double \<Rightarrow> double \<Rightarrow> double"

definition convertStatus :: "string \<Rightarrow> AllureStatus" where
  "convertStatus status =
     (if status = ''PASSED'' then passed
      else if status = ''FAILED'' then failed
      else if status = ''BROKEN'' then broken
      else if status = ''SKIPPED'' then skipped
      else unknown)"

definition generateHistoryId :: "(string \<Rightarrow> string) \<Rightarrow> string \<Rightarrow> string \<Rightarrow> string" where
  "generateHistoryId digest testTargetId testCaseId =
     digest (testTargetId @ '':'' @ testCaseId)"

definition convertStep ::
  "(double \<Rightarrow> double \<Rightarrow> double) \<Rightarrow> OctomindTestStep \<Rightarrow> double \<Rightarrow> AllureStep" where
  "convertStep addition step startTime =
     (let stepStart = startTime;
          stepStop = addition startTime (orZero (step_duration step))
      in \<lparr>astep_name = step_name step,
          astep_status = convertStatus (step_status step),
          astep_statusDetails =
            (if truthy (step_error step)
             then Some \<lparr>details_message = step_error step, details_trace = None\<rparr>
             else None),
          astep_stage = finished,
          astep_start = stepStart,
          astep_stop = stepStop\<rparr>)"

text \<open>
  The body of \<open>testResult.steps.forEach\<close>, on the pair of the array \<open>steps\<close> and the
  variable \<open>currentTime\<close>.
\<close>

definition pushStep ::
  "(double \<Rightarrow> double \<Rightarrow> double) \<Rightarrow> AllureStep list \<times> double \<Rightarrow> OctomindTestStep \<Rightarrow>
     AllureStep list \<times> double" where
  "pushStep addition acc step =
     (case acc of (steps, currentTime) \<Rightarrow>
        (steps @ [convertStep addition step currentTime],
         addition currentTime (orZero (step_duration step))))"

definition convertSteps ::
  "(double \<Rightarrow> double \<Rightarrow> double) \<Rightarrow> OctomindTestStep list option \<Rightarrow> double \<Rightarrow> AllureStep list" where
  "convertSteps addition stepsOption start =
     (case stepsOption of
        None \<Rightarrow> []
      | Some steps \<Rightarrow> fst (foldl (pushStep addition) ([], start) steps))"

text \<open>
  The list \<open>convertSteps\<close> builds, by recursion on the steps; the proofs below run on
  it (\<open>convertSteps_stepsFrom\<close> proves the two equal).
\<close>

fun stepsFrom ::
  "(double \<Rightarrow> double \<Rightarrow> double) \<Rightarrow> double \<Rightarrow> OctomindTestStep list \<Rightarrow> AllureStep list" where
  "stepsFrom addition t [] = []"
| "stepsFrom addition t (step # steps) =
     convertStep addition step t
       # stepsFrom addition (addition t (orZero (step_duration step))) steps"

text \<open>\<open>testCase.description || testCase.name || testResult.testCaseId\<close>.\<close>

definition testNameOf :: "OctomindTestCase \<Rightarrow> OctomindTestResult \<Rightarrow> string" where
  "testNameOf testCase testResult =
     (case case_description testCase of
        Some d \<Rightarrow>
          if d \<noteq> [] then d
          else if case_name testCase \<noteq> [] then case_name testCase
          else result_testCaseId testResult
      | None \<Rightarrow>
          if case_name testCase \<noteq> [] then case_name testCase
          else result_testCaseId testResult)"

definition buildLinks ::
  "OctomindTestResult \<Rightarrow> OctomindTestReport \<Rightarrow> OctomindTestCase \<Rightarrow> AllureLink list" where
  "buildLinks testResult testReport testCase =
     [\<lparr>link_type = ''link'', link_name = ''View in Octomind'',
       link_url = ''https://app.octomind.dev/testtargets/'' @ result_testTargetId testResult
                  @ ''/testreports/'' @ report_id testReport\<rparr>]
     @ (case result_traceUrl testResult of
          Some u \<Rightarrow>
            if u \<noteq> [] then [\<lparr>link_type = ''link'', link_name = ''Playwright Trace'', link_url = u\<rparr>]
            else []
        | None \<Rightarrow> [])
     @ (case case_externalId testCase of
          Some x \<Rightarrow>
            if x \<noteq> [] then [\<lparr>link_type = ''tms'', link_name = x, link_url = ''#'' @ x\<rparr>]
            else []
        | None \<Rightarrow> [])"

definition buildLabels ::
  "OctomindTestResult \<Rightarrow> OctomindTestReport \<Rightarrow> OctomindTestCase \<Rightarrow> OctomindTestTarget \<Rightarrow>
     string \<Rightarrow> AllureLabel list" where
  "buildLabels testResult testReport testCase testTarget testName =
     [\<lparr>label_name = ''host'', label_value = ''octomind''\<rparr>,
      \<lparr>label_name = ''language'', label_value = ''typescript''\<rparr>,
      \<lparr>label_name = ''framework'', label_value = ''playwright''\<rparr>,
      \<lparr>label_name = ''testClass'', label_value = target_app testTarget\<rparr>,
      \<lparr>label_name = ''testMethod'', label_value = result_testCaseId testResult\<rparr>,
      \<lparr>label_name = ''suite'', label_value = testName\<rparr>,
      \<lparr>label_name = ''package'', label_value = target_app testTarget\<rparr>]
     @ (case report_breakpoint testReport of
          Some b \<Rightarrow> if b \<noteq> [] then [\<lparr>label_name = ''breakpoint'', label_value = b\<rparr>] else []
        | None \<Rightarrow> [])
     @ (case report_browserType testReport of
          Some b \<Rightarrow> if b \<noteq> [] then [\<lparr>label_name = ''browser'', label_value = b\<rparr>] else []
        | None \<Rightarrow> [])
     @ (case case_tags testCase of
          Some tags \<Rightarrow>
            map (\<lambda>tag. \<lparr>label_name = ''tag'', label_value = tag_value tag\<rparr>)
              (filter (\<lambda>tag. tag_type tag = ''TEXT'') tags)
        | None \<Rightarrow> [])"

definition convertTestResult ::
  "runtime \<Rightarrow> OctomindTestResult \<Rightarrow> OctomindTestReport \<Rightarrow> OctomindTestCase \<Rightarrow>
     OctomindTestTarget \<Rightarrow> AllureTestResult" where
  "convertTestResult rt testResult testReport testCase testTarget =
     (let uuid = randomUUID rt;
          historyId = generateHistoryId (md5hex rt)
                        (result_testTargetId testResult) (result_testCaseId testResult);
          testName = testNameOf testCase testResult;
          testFullName = target_app testTarget @ ''.'' @ testName;
          createdAt = (case result_createdAt testResult of
                         Some c \<Rightarrow> if c \<noteq> [] then dateParse rt c else Num (dateNow rt)
                       | None \<Rightarrow> Num (dateNow rt));
          updatedAt = (case result_updatedAt testResult of
                         Some u \<Rightarrow> if u \<noteq> [] then dateParse rt u else createdAt
                       | None \<Rightarrow> createdAt);
          start = createdAt;
          stop = updatedAt;
          links = buildLinks testResult testReport testCase;
          labels = buildLabels testResult testReport testCase testTarget testName;
          steps = convertSteps (plusDouble rt) (result_steps testResult) (toDouble start);
          statusDetails =
            (if truthy (result_error testResult) \<or> truthy (result_stackTrace testResult)
             then Some \<lparr>details_message = result_error testResult,
                         details_trace = result_stackTrace testResult\<rparr>
             else None)
      in \<lparr>allure_uuid = uuid,
          allure_historyId = historyId,
          allure_testCaseId = Some (result_testCaseId testResult),
          allure_fullName = testFullName,
          allure_name = testName,
          allure_description = case_description testCase,
          allure_links = links,
          allure_labels = labels,
          allure_status = convertStatus (result_status testResult),
          allure_statusDetails = statusDetails,
          allure_stage = finished,
          allure_start = start,
          allure_stop = stop,
          allure_steps = Some steps\<rparr>)"

section \<open>The test-case cache: fetchTestCase\<close>

text \<open>The converter's cache and the number of test-case requests sent so far.\<close>

record converter =
  testCaseCache :: "string \<Rightarrow> OctomindTestCase option"
  caseRequests :: nat

definition fetchTestCase ::
  "caseEndpoint \<Rightarrow> string \<Rightarrow> string \<Rightarrow> converter \<Rightarrow> (error + OctomindTestCase) \<times> converter" where
  "fetchTestCase http testTargetId testCaseId c =
     (let cacheKey = testTargetId @ '':'' @ testCaseId
      in case testCaseCache c cacheKey of
           Some cached \<Rightarrow> (Inr cached, c)
         | None \<Rightarrow>
             let c1 = c\<lparr>caseRequests := Suc (caseRequests c)\<rparr>
             in (case http (caseRequests c) testTargetId testCaseId of
                   Rejected \<Rightarrow> (Inl NetworkError, c1)
                 | Response ok body \<Rightarrow>
                     if \<not> ok then
                       let testCase = \<lparr>case_id = testCaseId, case_name = testCaseId,
                                        case_description = None, case_tags = Some [],
                                        case_externalId = None\<rparr>
                       in (Inr testCase,
                           c1\<lparr>testCaseCache := (testCaseCache c1)(cacheKey \<mapsto> testCase)\<rparr>)
                     else
                       (case body of
                          None \<Rightarrow> (Inl JsonError, c1)
                        | Some testCase \<Rightarrow>
                            (Inr testCase,
                             c1\<lparr>testCaseCache := (testCaseCache c1)(cacheKey \<mapsto> testCase)\<rparr>))))"

section \<open>Concrete inputs\<close>

text \<open>Reports, pages and services on which the functions are run below.\<close>

definition reportWithId :: "string \<Rightarrow> OctomindTestReport" where
  "reportWithId i =
     \<lparr>report_id = i, report_testTargetId = ''target-1'', report_status = ''PASSED'',
      report_executionUrl = ''https://example.test/run'', report_createdAt = None,
      report_startedAt = None, report_finishedAt = None, report_breakpoint = None,
      report_browserType = None, report_testResults = []\<rparr>"

definition pageOf :: "string list \<Rightarrow> bool \<Rightarrow> OctomindTestReportsPage" where
  "pageOf ids continues =
     \<lparr>page_data = map reportWithId ids, page_key = Some ''2024-01-01T00:00:00Z'',
      page_hasNextPage = continues\<rparr>"

text \<open>A service that answers every request with the same page.\<close>

definition serving :: "OctomindTestReportsPage \<Rightarrow> reportsEndpoint" where
  "serving page n key = Response True (Some page)"


text \<open>
  An addition of doubles that does not round. It agrees with IEEE 754 addition wherever
  the exact sum of the two doubles is a double again, as it is for the integer times and
  durations (far below \<open>2^53\<close>) of the inputs below.
\<close>

fun exactPlus :: "double \<Rightarrow> double \<Rightarrow> double" where
  "exactPlus NotANumber b = NotANumber"
| "exactPlus a NotANumber = NotANumber"
| "exactPlus (Val a) (Val b) = Val (a + b)"
| "exactPlus PlusInfinity MinusInfinity = NotANumber"
| "exactPlus MinusInfinity PlusInfinity = NotANumber"
| "exactPlus PlusInfinity b = PlusInfinity"
| "exactPlus MinusInfinity b = MinusInfinity"
| "exactPlus a PlusInfinity = PlusInfinity"
| "exactPlus a MinusInfinity = MinusInfinity"

definition stepLasting :: "double option \<Rightarrow> OctomindTestStep" where
  "stepLasting d =
     \<lparr>step_name = ''click'', step_status = ''PASSED'', step_duration = d, step_error = None\<rparr>"

text \<open>
  A platform whose date parser reads one date and answers \<open>NaN\<close> to any other string, as
  \<open>new Date(s).getTime()\<close> does to a string that is no date. The digest is a stand-in;
  the addition is \<open>exactPlus\<close>.
\<close>

definition exampleRuntime :: runtime where
  "exampleRuntime =
     \<lparr>randomUUID = ''uuid-1'', dateNow = 1700000000000,
      dateParse = (\<lambda>s. if s = ''2024-01-01T00:00:00Z'' then Num 1704067200000 else NaN),
      md5hex = (\<lambda>s. ''digest of '' @ s),
      plusDouble = exactPlus\<rparr>"

text \<open>A result of target-2 (its report, \<open>reportWithId\<close>, names target-1).\<close>

definition resultOf ::
  "string \<Rightarrow> string option \<Rightarrow> string option \<Rightarrow> OctomindTestStep list option \<Rightarrow> OctomindTestResult" where
  "resultOf i created updated steps =
     \<lparr>result_id = i, result_testTargetId = ''target-2'', result_testCaseId = ''case-1'',
      result_status = ''PASSED'', result_traceUrl = None, result_error = None,
      result_stackTrace = None, result_duration = None, result_createdAt = created,
      result_updatedAt = updated, result_steps = steps\<rparr>"

definition exampleCase :: OctomindTestCase where
  "exampleCase =
     \<lparr>case_id = ''case-1'', case_name = ''login'', case_description = Some ''Login flow'',
      case_tags = None, case_externalId = None\<rparr>"

definition exampleTarget :: OctomindTestTarget where
  "exampleTarget = \<lparr>target_id = ''target-2'', target_app = ''MyApp''\<rparr>"

definition caseServing :: "OctomindTestCase response \<Rightarrow> caseEndpoint" where
  "caseServing r n testTargetId testCaseId = r"

definition emptyConverter :: converter where
  "emptyConverter = \<lparr>testCaseCache = Map.empty, caseRequests = 0\<rparr>"

section \<open>Pagination: facts about the loop\<close>

lemma allReports_foldl_addReport: "allReports (foldl addReport s rs) = allReports s @ rs"
  by (induction rs arbitrary: s) (simp_all add: addReport_def)

lemma seenIds_foldl_addReport: "seenIds (foldl addReport s rs) = seenIds s \<union> report_id ` set rs"
  by (induction rs arbitrary: s) (simp_all add: addReport_def)

lemma others_foldl_addReport:
  "hasNextPage (foldl addReport s rs) = hasNextPage s"
  "keyCreatedAt (foldl addReport s rs) = keyCreatedAt s"
  "warnings (foldl addReport s rs) = warnings s"
  "requests (foldl addReport s rs) = requests s"
  by (induction rs arbitrary: s) (simp_all add: addReport_def)

lemma fetchTestReports_Inr:
  "fetchTestReports http n k = Inr page \<Longrightarrow> \<exists>k'. http n k' = Response True (Some page)"
  by (auto simp: fetchTestReports_def split: response.splits if_splits option.splits)

lemma loopBody_fetched:
  assumes "loopBody http mx s = Continue s' \<or> loopBody http mx s = Break s'"
  shows "\<exists>page. fetchTestReports http (requests s) (keyCreatedAt s) = Inr page"
  using assms by (cases "fetchTestReports http (requests s) (keyCreatedAt s)") (auto simp: loopBody_def)

lemma loopBody_Continue:
  assumes "fetchTestReports http (requests s) (keyCreatedAt s) = Inr page"
    and "loopBody http mx s = Continue s'"
  shows "allReports s' = allReports s @ filter (\<lambda>r. report_id r \<notin> seenIds s) (page_data page)"
    and "seenIds s' = seenIds s \<union> report_id ` set (filter (\<lambda>r. report_id r \<notin> seenIds s) (page_data page))"
    and "hasNextPage s' = page_hasNextPage page"
    and "\<not> ge (length (allReports s')) mx"
    and "filter (\<lambda>r. report_id r \<notin> seenIds s) (page_data page) = [] \<Longrightarrow> \<not> hasNextPage s'"
  using assms
  by (auto simp: loopBody_def Let_def allReports_foldl_addReport seenIds_foldl_addReport
      others_foldl_addReport split: if_splits)

lemma loopBody_Break:
  assumes "fetchTestReports http (requests s) (keyCreatedAt s) = Inr page"
    and "loopBody http mx s = Break s'"
  shows "allReports s' = allReports s @ filter (\<lambda>r. report_id r \<notin> seenIds s) (page_data page)"
    and "seenIds s' = seenIds s \<union> report_id ` set (filter (\<lambda>r. report_id r \<notin> seenIds s) (page_data page))"
  using assms
  by (auto simp: loopBody_def Let_def allReports_foldl_addReport seenIds_foldl_addReport
      others_foldl_addReport filter_empty_conv split: if_splits)

lemma loopBody_progress:
  assumes "loopBody http mx s = Continue s'"
  shows "\<not> (hasNextPage s' \<and> lt (length (allReports s')) mx) \<or> seenIds s \<subset> seenIds s'"
proof -
  from loopBody_fetched[OF disjI1[OF assms]]
  obtain page where fetched: "fetchTestReports http (requests s) (keyCreatedAt s) = Inr page" ..
  note seen = loopBody_Continue(2)[OF fetched assms]
  note stop = loopBody_Continue(5)[OF fetched assms]
  show ?thesis
  proof (cases "filter (\<lambda>r. report_id r \<notin> seenIds s) (page_data page)")
    case Nil
    with stop show ?thesis by simp
  next
    case (Cons r rs)
    then have "r \<in> set (filter (\<lambda>r. report_id r \<notin> seenIds s) (page_data page))" by simp
    then have "report_id r \<notin> seenIds s" "report_id r \<in> seenIds s'"
      using seen by auto
    moreover have "seenIds s \<subseteq> seenIds s'" using seen by auto
    ultimately show ?thesis by blast
  qed
qed

lemma whileLoop_returns:
  assumes fin: "finite U"
    and served: "\<forall>n k p. http n k = Response True (Some p) \<longrightarrow> report_id ` set (page_data p) \<subseteq> U"
  shows "seenIds s \<subseteq> U \<Longrightarrow> card (U - seenIds s) + 2 \<le> fuel \<Longrightarrow> \<exists>r. whileLoop fuel http mx s = Some r"
proof (induction fuel arbitrary: s)
  case 0
  then show ?case by simp
next
  case (Suc fuel)
  show ?case
  proof (cases "hasNextPage s \<and> lt (length (allReports s)) mx")
    case False
    then show ?thesis by auto
  next
    case True
    show ?thesis
    proof (cases "loopBody http mx s")
      case (Break s')
      with True show ?thesis by simp
    next
      case (Throw e)
      with True show ?thesis by simp
    next
      case (Continue s')
      from loopBody_fetched[OF disjI1[OF Continue]] obtain page where
        fetched: "fetchTestReports http (requests s) (keyCreatedAt s) = Inr page" ..
      note seen = loopBody_Continue(2)[OF fetched Continue]
      from fetchTestReports_Inr[OF fetched] served
      have ids: "report_id ` set (page_data page) \<subseteq> U" by blast
      have sub: "seenIds s' \<subseteq> U" using seen ids Suc.prems(1) by auto
      have step: "whileLoop (Suc fuel) http mx s = whileLoop fuel http mx s'"
        using True Continue by simp
      from loopBody_progress[OF Continue]
      consider (stopped) "\<not> (hasNextPage s' \<and> lt (length (allReports s')) mx)"
        | (grown) "seenIds s \<subset> seenIds s'" by blast
      then show ?thesis
      proof cases
        case stopped
        from Suc.prems(2) obtain f where f: "fuel = Suc f" by (cases fuel) auto
        with stopped step show ?thesis by auto
      next
        case grown
        have "U - seenIds s' \<subset> U - seenIds s" using grown sub by blast
        then have "card (U - seenIds s') < card (U - seenIds s)"
          using fin by (simp add: psubset_card_mono)
        with Suc.prems(2) have "card (U - seenIds s') + 2 \<le> fuel" by simp
        from Suc.IH[OF sub this] step show ?thesis by simp
      qed
    qed
  qed
qed

lemma truthy_None: "truthy None = False"
  by (simp add: truthy_def)

lemma lt_iff_not_ge: "lt n mx = (\<not> ge n mx)"
  by (cases mx) auto

lemma trim_below: "lt (length reports) mx \<Longrightarrow> trim mx reports = reports"
  by (cases mx) (auto simp: trim_def)


lemma distinct_map_take: "distinct (map f xs) \<Longrightarrow> distinct (map f (take n xs))"
  by (metis distinct_take take_map)

lemma trim_distinct: "distinct (map f reports) \<Longrightarrow> distinct (map f (trim mx reports))"
  by (cases mx) (auto simp: trim_def distinct_map_take)

lemma append_new_distinct:
  assumes "distinct (map report_id xs)" and "report_id ` set xs \<subseteq> seen"
    and "distinct (map report_id ys)"
  shows "distinct (map report_id (xs @ filter (\<lambda>r. report_id r \<notin> seen) ys))"
  using assms by (auto simp: distinct_map_filter)

lemma whileLoop_distinct:
  assumes pages: "\<forall>n k p. http n k = Response True (Some p) \<longrightarrow> distinct (map report_id (page_data p))"
  shows "whileLoop fuel http mx s = Some (Inr s') \<Longrightarrow> distinct (map report_id (allReports s))
     \<Longrightarrow> report_id ` set (allReports s) \<subseteq> seenIds s
     \<Longrightarrow> distinct (map report_id (allReports s'))"
proof (induction fuel arbitrary: s)
  case 0
  then show ?case by simp
next
  case (Suc fuel)
  show ?case
  proof (cases "hasNextPage s \<and> lt (length (allReports s)) mx")
    case False
    with Suc.prems show ?thesis by auto
  next
    case True
    show ?thesis
    proof (cases "loopBody http mx s")
      case (Throw e)
      with True Suc.prems(1) show ?thesis by simp
    next
      case (Break t)
      with True Suc.prems(1) have t: "t = s'" by simp
      from loopBody_fetched[OF disjI2[OF Break]] obtain page where
        fetched: "fetchTestReports http (requests s) (keyCreatedAt s) = Inr page" ..
      from fetchTestReports_Inr[OF fetched] pages
      have "distinct (map report_id (page_data page))" by blast
      from append_new_distinct[OF Suc.prems(2,3) this] loopBody_Break(1)[OF fetched Break] t
      show ?thesis by simp
    next
      case (Continue t)
      from loopBody_fetched[OF disjI1[OF Continue]] obtain page where
        fetched: "fetchTestReports http (requests s) (keyCreatedAt s) = Inr page" ..
      from fetchTestReports_Inr[OF fetched] pages
      have "distinct (map report_id (page_data page))" by blast
      from append_new_distinct[OF Suc.prems(2,3) this] loopBody_Continue(1)[OF fetched Continue]
      have d: "distinct (map report_id (allReports t))" by simp
      have sub: "report_id ` set (allReports t) \<subseteq> seenIds t"
        using loopBody_Continue(1,2)[OF fetched Continue] Suc.prems(3) by auto
      have "whileLoop fuel http mx t = Some (Inr s')"
        using True Continue Suc.prems(1) by simp
      from Suc.IH[OF this d sub] show ?thesis .
    qed
  qed
qed

lemma fetchAllTestReports_distinct_across_pages:
  assumes "\<forall>n k p. http n k = Response True (Some p) \<longrightarrow> distinct (map report_id (page_data p))"
    and "fetchAllTestReports fuel http maxReportsOption = Some (Inr (reports, w))"
  shows "distinct (map report_id reports)"
proof -
  from assms(2) obtain s' where
    loop: "whileLoop fuel http (effectiveMax maxReportsOption) initialState = Some (Inr s')"
    and r: "reports = trim (effectiveMax maxReportsOption) (allReports s')"
    by (auto simp: fetchAllTestReports_def fetchAllFrom_def split: option.splits sum.splits)
  have "distinct (map report_id (allReports s'))"
    by (rule whileLoop_distinct[OF assms(1) loop]) (simp_all add: initialState_def)
  with r show ?thesis by (simp add: trim_distinct)
qed

lemma loopBody_duplicates:
  assumes "fetchTestReports http (requests s) (keyCreatedAt s) = Inr page"
    and "page_data page \<noteq> []" and "\<forall>r\<in>set (page_data page). report_id r \<in> seenIds s"
  shows "loopBody http mx s =
    Break (s\<lparr>requests := Suc (requests s),
             warnings := warnings s @ [''  Warning: Received duplicate reports, stopping pagination'']\<rparr>)"
  using assms by (simp add: loopBody_def Let_def filter_empty_conv)

lemma fetchAllFrom_duplicates:
  assumes "hasNextPage s" and "lt (length (allReports s)) mx"
    and "fetchTestReports http (requests s) (keyCreatedAt s) = Inr page"
    and "page_data page \<noteq> []" and "\<forall>r\<in>set (page_data page). report_id r \<in> seenIds s"
  shows "fetchAllFrom (Suc fuel) http mx s =
    Some (Inr (allReports s,
               warnings s @ [''  Warning: Received duplicate reports, stopping pagination'']))"
  using assms(1,2) loopBody_duplicates[OF assms(3,4,5)]
  by (simp add: fetchAllFrom_def trim_below)

lemma lt_mono: "lt n mx \<Longrightarrow> k \<le> n \<Longrightarrow> lt k mx"
  by (cases mx) auto

lemma fetchAllFrom_step:
  assumes "hasNextPage s" and "lt (length (allReports s)) mx"
    and "loopBody http mx s = Continue s'"
  shows "fetchAllFrom (Suc fuel) http mx s = fetchAllFrom fuel http mx s'"
  using assms by (simp add: fetchAllFrom_def)

lemma loopBody_first_page:
  assumes "http 0 None = Response True (Some first)" and "page_data first \<noteq> []"
    and "page_hasNextPage first" and "lt (length (page_data first)) mx"
  shows "loopBody http mx initialState =
    Continue \<lparr>allReports = page_data first, hasNextPage = True,
              keyCreatedAt = (if truthy (page_key first) then page_key first else None),
              seenIds = report_id ` set (page_data first), warnings = [], requests = Suc 0\<rparr>"
  using assms
  by (simp add: loopBody_def Let_def fetchTestReports_def initialState_def truthy_def
      allReports_foldl_addReport seenIds_foldl_addReport others_foldl_addReport lt_iff_not_ge)


section \<open>Pagination: the claims\<close>

text \<open>
  Claim C1 (every report id occurs at most once in the list \<open>fetchAllTestReports\<close>
  returns). The page is filtered against \<open>seenIds\<close> before any of its reports is added,
  so an id the service sends twice inside one page passes the filter twice: a single
  page holding two reports with the id r1 comes back as a list of both. Where no page
  repeats an id inside itself, the list is free of repetitions
  (\<open>fetchAllTestReports_distinct_across_pages\<close> above).
\<close>

theorem duplicate_within_page_is_kept:
  "fetchAllTestReports 2 (serving (pageOf [''r1'', ''r1''] False)) None
     = Some (Inr ([reportWithId ''r1'', reportWithId ''r1''], []))
   \<and> \<not> distinct (map report_id [reportWithId ''r1'', reportWithId ''r1''])"
  by (simp add: fetchAllTestReports_def fetchAllFrom_def effectiveMax_def initialState_def
      loopBody_def fetchTestReports_def truthy_def serving_def pageOf_def reportWithId_def
      addReport_def trim_def Let_def numeral_2_eq_2)

text \<open>
  Claim C2. Let every page the service sends hold report ids of a finite set \<open>U\<close> only
  (whatever the cursors and continuation flags are, a flag that is always set included).
  Then \<open>fetchAllTestReports\<close> returns: the loop is through after at most
  \<open>card U + 2\<close> tests of its condition, so with that much fuel the result is not
  \<open>None\<close>. And a run of the loop body that does not \<open>break\<close> or throw either leaves
  a state in which the loop condition fails, or has put a new id into \<open>seenIds\<close>.
\<close>

theorem fetchAllTestReports_terminates:
  assumes "finite U"
    and "\<forall>n k p. http n k = Response True (Some p) \<longrightarrow> report_id ` set (page_data p) \<subseteq> U"
  shows "(\<forall>fuel. card U + 2 \<le> fuel \<longrightarrow> (\<exists>r. fetchAllTestReports fuel http maxReportsOption = Some r))
       \<and> (\<forall>mx s s'. loopBody http mx s = Continue s' \<longrightarrow>
            \<not> (hasNextPage s' \<and> lt (length (allReports s')) mx) \<or> seenIds s \<subset> seenIds s')"
proof (intro conjI allI impI)
  fix fuel
  assume "card U + 2 \<le> fuel"
  then have "card (U - seenIds initialState) + 2 \<le> fuel"
    by (simp add: initialState_def)
  moreover have "seenIds initialState \<subseteq> U" by (simp add: initialState_def)
  ultimately obtain r where "whileLoop fuel http (effectiveMax maxReportsOption) initialState = Some r"
    using whileLoop_returns[OF assms] by blast
  then show "\<exists>r. fetchAllTestReports fuel http maxReportsOption = Some r"
    by (cases r) (simp_all add: fetchAllTestReports_def fetchAllFrom_def)
next
  fix mx s s'
  assume "loopBody http mx s = Continue s'"
  then show "\<not> (hasNextPage s' \<and> lt (length (allReports s')) mx) \<or> seenIds s \<subset> seenIds s'"
    by (rule loopBody_progress)
qed

theorem fetchAllTestReports_terminates_witness:
  "\<exists>r. fetchAllTestReports 4 (serving (pageOf [''r1'', ''r2''] True)) None = Some r"
proof -
  have fin: "finite {''r1'', ''r2''}" by simp
  have served: "\<forall>n k p. serving (pageOf [''r1'', ''r2''] True) n k = Response True (Some p)
      \<longrightarrow> report_id ` set (page_data p) \<subseteq> {''r1'', ''r2''}"
    by (auto simp: serving_def pageOf_def reportWithId_def)
  have "card {''r1'', ''r2''} + 2 \<le> (4::nat)" by simp
  with fetchAllTestReports_terminates[OF fin served, of None] show ?thesis by blast
qed


text \<open>
  Claim C3. In a state where the loop goes on, a page that is not empty and holds only
  ids of \<open>seenIds\<close> ends the function at once: it returns the reports accumulated so
  far, unchanged and untrimmed, as a normal result, and writes the warning. In particular,
  from the start: when the first page is not empty, sets the continuation flag and stays
  below the maximum, and the second page is not empty and repeats ids of the first only,
  the result is the first page's reports.
\<close>

theorem duplicate_only_page_stops:
  "(hasNextPage s \<and> lt (length (allReports s)) mx
      \<and> fetchTestReports http (requests s) (keyCreatedAt s) = Inr page
      \<and> page_data page \<noteq> [] \<and> (\<forall>r\<in>set (page_data page). report_id r \<in> seenIds s)
    \<longrightarrow> fetchAllFrom (Suc fuel) http mx s =
          Some (Inr (allReports s,
            warnings s @ [''  Warning: Received duplicate reports, stopping pagination''])))
   \<and> (http 0 None = Response True (Some first) \<and> page_data first \<noteq> []
      \<and> page_hasNextPage first \<and> lt (length (page_data first)) (effectiveMax maxReportsOption)
      \<and> http 1 (if truthy (page_key first) then page_key first else None)
           = Response True (Some second)
      \<and> page_data second \<noteq> []
      \<and> report_id ` set (page_data second) \<subseteq> report_id ` set (page_data first)
    \<longrightarrow> fetchAllTestReports (Suc (Suc fuel)) http maxReportsOption =
          Some (Inr (page_data first,
            [''  Warning: Received duplicate reports, stopping pagination''])))"
proof (intro conjI impI)
  assume "hasNextPage s \<and> lt (length (allReports s)) mx
      \<and> fetchTestReports http (requests s) (keyCreatedAt s) = Inr page
      \<and> page_data page \<noteq> [] \<and> (\<forall>r\<in>set (page_data page). report_id r \<in> seenIds s)"
  then show "fetchAllFrom (Suc fuel) http mx s =
          Some (Inr (allReports s,
            warnings s @ [''  Warning: Received duplicate reports, stopping pagination'']))"
    by (simp add: fetchAllFrom_duplicates)
next
  let ?mx = "effectiveMax maxReportsOption"
  let ?s1 = "\<lparr>allReports = page_data first, hasNextPage = True,
              keyCreatedAt = (if truthy (page_key first) then page_key first else None),
              seenIds = report_id ` set (page_data first), warnings = [], requests = Suc 0\<rparr>"
  assume a: "http 0 None = Response True (Some first) \<and> page_data first \<noteq> []
      \<and> page_hasNextPage first \<and> lt (length (page_data first)) ?mx
      \<and> http 1 (if truthy (page_key first) then page_key first else None)
           = Response True (Some second)
      \<and> page_data second \<noteq> []
      \<and> report_id ` set (page_data second) \<subseteq> report_id ` set (page_data first)"
  then have body: "loopBody http ?mx initialState = Continue ?s1"
    by (simp add: loopBody_first_page)
  have fetched: "fetchTestReports http (requests ?s1) (keyCreatedAt ?s1) = Inr second"
    using a by (cases "truthy (page_key first)") (simp_all add: fetchTestReports_def truthy_None)
  have "fetchAllFrom (Suc fuel) http ?mx ?s1 =
      Some (Inr (allReports ?s1,
        warnings ?s1 @ [''  Warning: Received duplicate reports, stopping pagination'']))"
    by (rule fetchAllFrom_duplicates[OF _ _ fetched]) (use a in auto)
  moreover have "fetchAllFrom (Suc (Suc fuel)) http ?mx initialState
      = fetchAllFrom (Suc fuel) http ?mx ?s1"
  proof (rule fetchAllFrom_step[OF _ _ body])
    show "hasNextPage initialState" by (simp add: initialState_def)
    from a have "lt (length (page_data first)) ?mx" by simp
    then show "lt (length (allReports initialState)) ?mx"
      by (rule lt_mono) (simp add: initialState_def)
  qed
  ultimately show "fetchAllTestReports (Suc (Suc fuel)) http maxReportsOption =
          Some (Inr (page_data first,
            [''  Warning: Received duplicate reports, stopping pagination'']))"
    by (simp add: fetchAllTestReports_def)
qed

theorem duplicate_only_page_stops_witness:
  "fetchAllFrom (Suc 0) (serving (pageOf [''r2''] True)) (Finite 5)
       \<lparr>allReports = [reportWithId ''r1'', reportWithId ''r2''], hasNextPage = True,
        keyCreatedAt = None, seenIds = {''r1'', ''r2''}, warnings = [], requests = 1\<rparr> =
     Some (Inr ([reportWithId ''r1'', reportWithId ''r2''],
       [''  Warning: Received duplicate reports, stopping pagination'']))
   \<and> fetchAllTestReports (Suc (Suc 0)) (serving (pageOf [''r1'', ''r2''] True)) None =
     Some (Inr ([reportWithId ''r1'', reportWithId ''r2''],
       [''  Warning: Received duplicate reports, stopping pagination'']))"
proof -
  let ?s = "\<lparr>allReports = [reportWithId ''r1'', reportWithId ''r2''], hasNextPage = True,
        keyCreatedAt = None, seenIds = {''r1'', ''r2''}, warnings = [], requests = 1\<rparr>"
  let ?p = "pageOf [''r1'', ''r2''] True"
  have h1: "hasNextPage ?s \<and> lt (length (allReports ?s)) (Finite 5)
      \<and> fetchTestReports (serving (pageOf [''r2''] True)) (requests ?s) (keyCreatedAt ?s)
          = Inr (pageOf [''r2''] True)
      \<and> page_data (pageOf [''r2''] True) \<noteq> []
      \<and> (\<forall>r\<in>set (page_data (pageOf [''r2''] True)). report_id r \<in> seenIds ?s)"
    by (simp add: fetchTestReports_def truthy_def serving_def pageOf_def reportWithId_def)
  have h2: "serving ?p 0 None = Response True (Some ?p) \<and> page_data ?p \<noteq> []
      \<and> page_hasNextPage ?p \<and> lt (length (page_data ?p)) (effectiveMax None)
      \<and> serving ?p 1 (if truthy (page_key ?p) then page_key ?p else None)
           = Response True (Some ?p)
      \<and> page_data ?p \<noteq> []
      \<and> report_id ` set (page_data ?p) \<subseteq> report_id ` set (page_data ?p)"
    by (simp add: serving_def pageOf_def effectiveMax_def)
  have c1: "fetchAllFrom (Suc 0) (serving (pageOf [''r2''] True)) (Finite 5) ?s =
      Some (Inr (allReports ?s,
        warnings ?s @ [''  Warning: Received duplicate reports, stopping pagination'']))"
    by (rule mp[OF conjunct1[OF duplicate_only_page_stops] h1])
  have c2: "fetchAllTestReports (Suc (Suc 0)) (serving ?p) None =
      Some (Inr (page_data ?p,
        [''  Warning: Received duplicate reports, stopping pagination'']))"
    by (rule mp[OF conjunct2[OF duplicate_only_page_stops] h2])
  from c1 c2 show ?thesis by (simp add: pageOf_def)
qed




section \<open>Translation: facts about the steps\<close>

lemma le_trans: "le a b \<Longrightarrow> le b c \<Longrightarrow> le a c"
  by (cases a; cases b; cases c) auto

lemma le_left: "le a b \<Longrightarrow> le a a"
  by (cases a; cases b) auto

lemma le_right: "le a b \<Longrightarrow> le b b"
  by (cases a; cases b) auto

lemma exactPlus_monotone: "le (Val 0) d \<Longrightarrow> le (Val s) a \<Longrightarrow> le a (exactPlus a d)"
  by (cases a; cases d) auto

lemma foldl_pushStep:
  "fst (foldl (pushStep addition) (acc, t) steps) = acc @ stepsFrom addition t steps"
  by (induction steps arbitrary: acc t) (simp_all add: pushStep_def)

lemma convertSteps_stepsFrom:
  "convertSteps addition (Some steps) start = stepsFrom addition start steps"
  by (simp add: convertSteps_def foldl_pushStep)

lemma length_stepsFrom: "length (stepsFrom addition t steps) = length steps"
  by (induction steps arbitrary: t) simp_all

lemma stepsFrom_first:
  "steps \<noteq> [] \<Longrightarrow> astep_start (stepsFrom addition t steps ! 0) = t"
  by (cases steps) (simp_all add: convertStep_def)

lemma stepsFrom_next:
  "Suc i < length steps \<Longrightarrow>
     astep_start (stepsFrom addition t steps ! Suc i) = astep_stop (stepsFrom addition t steps ! i)"
proof (induction steps arbitrary: t i)
  case Nil
  then show ?case by simp
next
  case (Cons step steps)
  show ?case
  proof (cases i)
    case 0
    with Cons.prems have "steps \<noteq> []" by auto
    with 0 show ?thesis by (simp add: stepsFrom_first) (simp add: convertStep_def)
  next
    case (Suc j)
    with Cons.prems have "Suc j < length steps" by simp
    from Cons.IH[OF this] Suc show ?thesis by simp
  qed
qed

lemma stepsFrom_stop:
  "i < length steps \<Longrightarrow>
     astep_stop (stepsFrom addition t steps ! i)
       = addition (astep_start (stepsFrom addition t steps ! i))
           (orZero (step_duration (steps ! i)))"
proof (induction steps arbitrary: t i)
  case Nil
  then show ?case by simp
next
  case (Cons step steps)
  then show ?case by (cases i) (simp_all add: convertStep_def)
qed

lemma stepsFrom_bounds:
  assumes mono: "\<forall>a d. le (Val 0) d \<and> le t0 a \<longrightarrow> le a (addition a d)"
  shows "\<forall>s\<in>set steps. le (Val 0) (orZero (step_duration s)) \<Longrightarrow> le t0 t \<Longrightarrow>
    \<forall>x\<in>set (stepsFrom addition t steps).
       le t (astep_start x) \<and> le (astep_start x) (astep_stop x)"
proof (induction steps arbitrary: t)
  case Nil
  then show ?case by simp
next
  case (Cons step steps)
  let ?t' = "addition t (orZero (step_duration step))"
  from Cons.prems(1) have d: "le (Val 0) (orZero (step_duration step))" by simp
  with mono Cons.prems(2) have step: "le t ?t'" by blast
  have self: "le t t" using Cons.prems(2) by (rule le_right)
  have from_start: "le t0 ?t'" using Cons.prems(2) step by (rule le_trans)
  from Cons.prems(1) have rest: "\<forall>s\<in>set steps. le (Val 0) (orZero (step_duration s))" by simp
  from Cons.IH[OF rest from_start]
  have tail: "\<forall>x\<in>set (stepsFrom addition ?t' steps).
       le ?t' (astep_start x) \<and> le (astep_start x) (astep_stop x)" .
  have "\<forall>x\<in>set (stepsFrom addition ?t' steps).
       le t (astep_start x) \<and> le (astep_start x) (astep_stop x)"
  proof
    fix x assume "x \<in> set (stepsFrom addition ?t' steps)"
    with tail have "le ?t' (astep_start x)" "le (astep_start x) (astep_stop x)" by auto
    with step show "le t (astep_start x) \<and> le (astep_start x) (astep_stop x)"
      by (auto intro: le_trans)
  qed
  with self step show ?case by (simp add: convertStep_def)
qed

lemma stepsFrom_monotone:
  assumes mono: "\<forall>a d. le (Val 0) d \<and> le t0 a \<longrightarrow> le a (addition a d)"
  shows "\<forall>s\<in>set steps. le (Val 0) (orZero (step_duration s)) \<Longrightarrow> le t0 t \<Longrightarrow>
    sorted_wrt (\<lambda>x y. le (astep_stop x) (astep_start y)) (stepsFrom addition t steps)"
proof (induction steps arbitrary: t)
  case Nil
  then show ?case by simp
next
  case (Cons step steps)
  let ?t' = "addition t (orZero (step_duration step))"
  from Cons.prems(1) have d: "le (Val 0) (orZero (step_duration step))" by simp
  with mono Cons.prems(2) have step: "le t ?t'" by blast
  have from_start: "le t0 ?t'" using Cons.prems(2) step by (rule le_trans)
  from Cons.prems(1) have rest: "\<forall>s\<in>set steps. le (Val 0) (orZero (step_duration s))" by simp
  from stepsFrom_bounds[OF mono rest from_start]
  have "\<forall>y\<in>set (stepsFrom addition ?t' steps). le ?t' (astep_start y)" by blast
  with Cons.IH[OF rest from_start] show ?case by (simp add: convertStep_def)
qed

lemma allure_steps_convertTestResult:
  "allure_steps (convertTestResult rt testResult testReport testCase testTarget)
     = Some (convertSteps (plusDouble rt) (result_steps testResult)
         (toDouble (allure_start (convertTestResult rt testResult testReport testCase testTarget))))"
  by (simp add: convertTestResult_def Let_def)

section \<open>Translation: the claims\<close>

text \<open>
  Claim C5, as amended. For a result with a step list, the output has one step per source
  step; the first starts at the result's start, each later step starts where the one
  before it stops, and each stops at the platform's sum of its start and its duration
  (zero when the duration is absent). This holds for every start, all durations (fractions
  included) and whatever the sum of two doubles is, rounded as it may be. When the
  result's start is a number (not \<open>NaN\<close>), no duration is negative, and adding a
  duration that is not negative to a time at or after the start never gives an earlier
  time (as IEEE 754 addition does not), the timestamps do not decrease: no step stops
  before it starts, and no step starts before an earlier one stops.
\<close>

theorem step_timestamps_contiguous:
  assumes "result_steps testResult = Some steps"
    and "res = convertTestResult rt testResult testReport testCase testTarget"
  shows "\<exists>out. allure_steps res = Some out \<and> length out = length steps
    \<and> (steps \<noteq> [] \<longrightarrow> astep_start (out ! 0) = toDouble (allure_start res))
    \<and> (\<forall>i. Suc i < length steps \<longrightarrow> astep_start (out ! Suc i) = astep_stop (out ! i))
    \<and> (\<forall>i<length steps. astep_stop (out ! i)
          = plusDouble rt (astep_start (out ! i)) (orZero (step_duration (steps ! i))))
    \<and> ((\<exists>a. allure_start res = Num a)
        \<and> (\<forall>s\<in>set steps. le (Val 0) (orZero (step_duration s)))
        \<and> (\<forall>a d. le (Val 0) d \<and> le (toDouble (allure_start res)) a
              \<longrightarrow> le a (plusDouble rt a d))
       \<longrightarrow> (\<forall>x\<in>set out. le (astep_start x) (astep_stop x))
         \<and> sorted_wrt (\<lambda>x y. le (astep_stop x) (astep_start y)) out)"
proof -
  let ?t0 = "toDouble (allure_start res)"
  let ?out = "stepsFrom (plusDouble rt) ?t0 steps"
  have out: "allure_steps res = Some ?out"
    using assms by (simp add: allure_steps_convertTestResult convertSteps_stepsFrom)
  have "(\<forall>x\<in>set ?out. le (astep_start x) (astep_stop x))
         \<and> sorted_wrt (\<lambda>x y. le (astep_stop x) (astep_start y)) ?out"
    if h: "(\<exists>a. allure_start res = Num a)
        \<and> (\<forall>s\<in>set steps. le (Val 0) (orZero (step_duration s)))
        \<and> (\<forall>a d. le (Val 0) d \<and> le ?t0 a \<longrightarrow> le a (plusDouble rt a d))"
  proof -
    from h obtain a where "allure_start res = Num a" by blast
    then have self: "le ?t0 ?t0" by simp
    from h have nn: "\<forall>s\<in>set steps. le (Val 0) (orZero (step_duration s))" by blast
    from h have mono: "\<forall>a d. le (Val 0) d \<and> le ?t0 a \<longrightarrow> le a (plusDouble rt a d)" by blast
    from stepsFrom_bounds[OF mono nn self] stepsFrom_monotone[OF mono nn self]
    show ?thesis by blast
  qed
  with out show ?thesis
    by (intro exI[of _ ?out]) (simp add: length_stepsFrom stepsFrom_first stepsFrom_next stepsFrom_stop)
qed

theorem step_timestamps_contiguous_witness:
  "\<exists>out. allure_steps (convertTestResult exampleRuntime
        (resultOf ''result-1'' (Some ''2024-01-01T00:00:00Z'') None
           (Some [stepLasting (Some (Val 100)), stepLasting None, stepLasting (Some (Val 50))]))
        (reportWithId ''report-1'') exampleCase exampleTarget) = Some out
     \<and> map (\<lambda>x. (astep_start x, astep_stop x)) out
         = [(Val 1704067200000, Val 1704067200100), (Val 1704067200100, Val 1704067200100),
            (Val 1704067200100, Val 1704067200150)]
     \<and> astep_start (out ! 0) = Val 1704067200000
     \<and> astep_start (out ! Suc 0) = astep_stop (out ! 0)
     \<and> astep_stop (out ! 0) = plusDouble exampleRuntime (astep_start (out ! 0)) (Val 100)
     \<and> sorted_wrt (\<lambda>x y. le (astep_stop x) (astep_start y)) out"
proof -
  let ?steps = "[stepLasting (Some (Val 100)), stepLasting None, stepLasting (Some (Val 50))]"
  let ?r = "resultOf ''result-1'' (Some ''2024-01-01T00:00:00Z'') None (Some ?steps)"
  let ?res = "convertTestResult exampleRuntime ?r (reportWithId ''report-1'') exampleCase exampleTarget"
  have steps: "result_steps ?r = Some ?steps" by (simp add: resultOf_def)
  have start: "allure_start ?res = Num 1704067200000"
    by (simp add: convertTestResult_def Let_def resultOf_def exampleRuntime_def)
  have pd: "plusDouble exampleRuntime = exactPlus" by (simp add: exampleRuntime_def)
  have nonneg: "\<forall>s\<in>set ?steps. le (Val 0) (orZero (step_duration s))"
    by (simp add: stepLasting_def)
  have mono: "\<forall>a d. le (Val 0) d \<and> le (toDouble (allure_start ?res)) a
      \<longrightarrow> le a (plusDouble exampleRuntime a d)"
    unfolding start pd by (auto intro: exactPlus_monotone)
  have computed: "allure_steps ?res = Some (stepsFrom exactPlus (Val 1704067200000) ?steps)"
    using start by (simp add: allure_steps_convertTestResult convertSteps_stepsFrom resultOf_def pd)
  from step_timestamps_contiguous[OF steps refl, where rt = exampleRuntime
      and testReport = "reportWithId ''report-1''" and testCase = exampleCase
      and testTarget = exampleTarget]
  obtain out where out: "allure_steps ?res = Some out"
    and len: "length out = length ?steps"
    and first: "?steps \<noteq> [] \<longrightarrow> astep_start (out ! 0) = toDouble (allure_start ?res)"
    and nxt: "\<forall>i. Suc i < length ?steps \<longrightarrow> astep_start (out ! Suc i) = astep_stop (out ! i)"
    and stop: "\<forall>i<length ?steps. astep_stop (out ! i)
          = plusDouble exampleRuntime (astep_start (out ! i)) (orZero (step_duration (?steps ! i)))"
    and sorted: "(\<exists>a. allure_start ?res = Num a)
        \<and> (\<forall>s\<in>set ?steps. le (Val 0) (orZero (step_duration s)))
        \<and> (\<forall>a d. le (Val 0) d \<and> le (toDouble (allure_start ?res)) a
              \<longrightarrow> le a (plusDouble exampleRuntime a d))
       \<longrightarrow> (\<forall>x\<in>set out. le (astep_start x) (astep_stop x))
         \<and> sorted_wrt (\<lambda>x y. le (astep_stop x) (astep_start y)) out"
    by (elim exE conjE) (rule that)
  from out computed have eq: "out = stepsFrom exactPlus (Val 1704067200000) ?steps" by simp
  have "map (\<lambda>x. (astep_start x, astep_stop x)) out
         = [(Val 1704067200000, Val 1704067200100), (Val 1704067200100, Val 1704067200100),
            (Val 1704067200100, Val 1704067200150)]"
    unfolding eq by (simp add: convertStep_def stepLasting_def)
  moreover have "astep_start (out ! Suc 0) = astep_stop (out ! 0)" using nxt by simp
  moreover have "astep_stop (out ! 0) = plusDouble exampleRuntime (astep_start (out ! 0)) (Val 100)"
    using stop by (simp add: stepLasting_def)
  moreover have "sorted_wrt (\<lambda>x y. le (astep_stop x) (astep_start y)) out"
    using sorted start nonneg mono by blast
  moreover have "astep_start (out ! 0) = Val 1704067200000"
    using first start by simp
  ultimately show ?thesis using out by simp
qed

text \<open>
  Claim C5 as stated fails on a negative duration: a single step lasting -5 ms stops
  before it starts (the sum 1704067200000 + -5 is exact in doubles).
\<close>

theorem negative_duration_counterexample:
  "allure_steps (convertTestResult exampleRuntime
      (resultOf ''result-1'' (Some ''2024-01-01T00:00:00Z'') None
         (Some [stepLasting (Some (Val (- 5)))]))
      (reportWithId ''report-1'') exampleCase exampleTarget)
     = Some [\<lparr>astep_name = ''click'', astep_status = passed, astep_statusDetails = None,
              astep_stage = finished, astep_start = Val 1704067200000,
              astep_stop = Val 1704067199995\<rparr>]
   \<and> \<not> le (Val 1704067200000) (Val 1704067199995)"
  by (simp add: convertTestResult_def Let_def resultOf_def exampleRuntime_def convertSteps_def
      pushStep_def convertStep_def stepLasting_def convertStatus_def truthy_def)

text \<open>
  Claim C6. The history identifier of the output is the digest of
  \<open>testTargetId:testCaseId\<close>, both read from the result itself: it depends on nothing
  else, so two translations whose results agree on the two identifiers (under the same
  digest function) get the same history identifier, whatever their reports, cases, targets,
  clocks and generated identifiers are.
\<close>

theorem historyId_from_result_ids:
  "allure_historyId (convertTestResult rt testResult testReport testCase testTarget)
     = md5hex rt (result_testTargetId testResult @ '':'' @ result_testCaseId testResult)
   \<and> generateHistoryId digest testTargetId testCaseId = digest (testTargetId @ '':'' @ testCaseId)
   \<and> (md5hex rt' = md5hex rt
        \<and> result_testTargetId testResult' = result_testTargetId testResult
        \<and> result_testCaseId testResult' = result_testCaseId testResult
      \<longrightarrow> allure_historyId (convertTestResult rt' testResult' testReport' testCase' testTarget')
          = allure_historyId (convertTestResult rt testResult testReport testCase testTarget))"
  by (simp add: convertTestResult_def Let_def generateHistoryId_def)

theorem historyId_from_result_ids_witness:
  "allure_historyId (convertTestResult exampleRuntime
      (resultOf ''result-1'' None None None) (reportWithId ''report-1'') exampleCase exampleTarget)
     = ''digest of target-2:case-1''
   \<and> report_testTargetId (reportWithId ''report-1'') = ''target-1''
   \<and> allure_historyId (convertTestResult (exampleRuntime\<lparr>randomUUID := ''uuid-2'', dateNow := 5\<rparr>)
      (resultOf ''result-2'' (Some ''2024-01-01T00:00:00Z'') None (Some []))
      (reportWithId ''report-2'') exampleCase exampleTarget)
     = allure_historyId (convertTestResult exampleRuntime
      (resultOf ''result-1'' None None None) (reportWithId ''report-1'') exampleCase exampleTarget)"
  using historyId_from_result_ids[where rt = exampleRuntime
      and testResult = "resultOf ''result-1'' None None None"
      and testReport = "reportWithId ''report-1''" and testCase = exampleCase
      and testTarget = exampleTarget
      and rt' = "exampleRuntime\<lparr>randomUUID := ''uuid-2'', dateNow := 5\<rparr>"
      and testResult' = "resultOf ''result-2'' (Some ''2024-01-01T00:00:00Z'') None (Some [])"
      and testReport' = "reportWithId ''report-2''" and testCase' = exampleCase
      and testTarget' = exampleTarget]
  by (simp add: resultOf_def exampleRuntime_def reportWithId_def)

text \<open>
  Claim C7. \<open>convertStatus\<close> maps PASSED, FAILED, BROKEN and SKIPPED to passed, failed,
  broken and skipped, and every other string to unknown. It is a total function: no input
  raises an error.
\<close>

theorem convertStatus_total:
  "convertStatus ''PASSED'' = passed \<and> convertStatus ''FAILED'' = failed
   \<and> convertStatus ''BROKEN'' = broken \<and> convertStatus ''SKIPPED'' = skipped
   \<and> (status \<notin> {''PASSED'', ''FAILED'', ''BROKEN'', ''SKIPPED''}
        \<longrightarrow> convertStatus status = unknown)"
  by (simp add: convertStatus_def)

theorem convertStatus_total_witness:
  "convertStatus ''RUNNING'' = unknown \<and> convertStatus [] = unknown"
  using convertStatus_total[of "''RUNNING''"] convertStatus_total[of "[]"] by simp

text \<open>
  Claim C8, as amended. The translation raises no error. An absent or empty
  \<open>createdAt\<close> makes the start the current time, and an absent or empty
  \<open>updatedAt\<close> makes the stop equal to the start. Any other string goes to the date
  parser and its answer is taken as it is: for a string that is no date the field is
  \<open>NaN\<close>, not the current time.
\<close>

theorem timestamps_of_result:
  assumes "res = convertTestResult rt testResult testReport testCase testTarget"
  shows "(\<not> truthy (result_createdAt testResult) \<longrightarrow> allure_start res = Num (dateNow rt))
   \<and> (\<forall>c. result_createdAt testResult = Some c \<and> c \<noteq> [] \<longrightarrow> allure_start res = dateParse rt c)
   \<and> (\<not> truthy (result_updatedAt testResult) \<longrightarrow> allure_stop res = allure_start res)
   \<and> (\<forall>u. result_updatedAt testResult = Some u \<and> u \<noteq> [] \<longrightarrow> allure_stop res = dateParse rt u)"
  using assms
  by (auto simp: convertTestResult_def Let_def truthy_def split: option.splits)

theorem timestamps_of_result_witness:
  "allure_start (convertTestResult exampleRuntime
      (resultOf ''result-1'' None (Some ''2024-01-01T00:00:00Z'') None)
      (reportWithId ''report-1'') exampleCase exampleTarget) = Num 1700000000000
   \<and> allure_stop (convertTestResult exampleRuntime
      (resultOf ''result-1'' None (Some ''2024-01-01T00:00:00Z'') None)
      (reportWithId ''report-1'') exampleCase exampleTarget) = Num 1704067200000
   \<and> allure_start (convertTestResult exampleRuntime
      (resultOf ''result-1'' (Some ''not a date'') None None)
      (reportWithId ''report-1'') exampleCase exampleTarget) = NaN
   \<and> allure_stop (convertTestResult exampleRuntime
      (resultOf ''result-1'' (Some ''not a date'') None None)
      (reportWithId ''report-1'') exampleCase exampleTarget) = NaN"
  using timestamps_of_result[OF refl, where rt = exampleRuntime
      and testResult = "resultOf ''result-1'' None (Some ''2024-01-01T00:00:00Z'') None"
      and testReport = "reportWithId ''report-1''" and testCase = exampleCase
      and testTarget = exampleTarget]
    timestamps_of_result[OF refl, where rt = exampleRuntime
      and testResult = "resultOf ''result-1'' (Some ''not a date'') None None"
      and testReport = "reportWithId ''report-1''" and testCase = exampleCase
      and testTarget = exampleTarget]
  by (simp add: resultOf_def exampleRuntime_def truthy_def)

text \<open>
  Claim C8 as stated fails on a \<open>createdAt\<close> that is no date: the start is
  \<open>NaN\<close>, which is neither the current time nor a time in epoch milliseconds.
\<close>

theorem malformed_createdAt_counterexample:
  "dateParse exampleRuntime ''not a date'' = NaN
   \<and> allure_start (convertTestResult exampleRuntime
      (resultOf ''result-1'' (Some ''not a date'') None None)
      (reportWithId ''report-1'') exampleCase exampleTarget) = NaN
   \<and> allure_start (convertTestResult exampleRuntime
      (resultOf ''result-1'' (Some ''not a date'') None None)
      (reportWithId ''report-1'') exampleCase exampleTarget) \<noteq> Num (dateNow exampleRuntime)"
  by (simp add: convertTestResult_def Let_def resultOf_def exampleRuntime_def)

text \<open>
  Claim C10. The output of \<open>convertTestResult\<close> always has its \<open>steps\<close> field, and
  the field is the empty list when the source result has no \<open>steps\<close>.
\<close>

theorem steps_field_always_present:
  "(\<exists>steps. allure_steps (convertTestResult rt testResult testReport testCase testTarget)
        = Some steps)
   \<and> (result_steps testResult = None
        \<longrightarrow> allure_steps (convertTestResult rt testResult testReport testCase testTarget)
            = Some [])"
  by (simp add: convertTestResult_def Let_def convertSteps_def)

theorem steps_field_always_present_witness:
  "allure_steps (convertTestResult exampleRuntime (resultOf ''result-1'' None None None)
      (reportWithId ''report-1'') exampleCase exampleTarget) = Some []"
  using steps_field_always_present[where rt = exampleRuntime
      and testResult = "resultOf ''result-1'' None None None"
      and testReport = "reportWithId ''report-1''" and testCase = exampleCase
      and testTarget = exampleTarget]
  by (simp add: resultOf_def)

section \<open>The test-case cache: the claim\<close>

text \<open>
  Claim C9, as amended. When the pair is not cached and the service answers the request
  with a status that is not ok, \<open>fetchTestCase\<close> returns, and stores under the pair's
  cache key, the case whose id and name are the requested case id and whose tag list is
  empty. And when a lookup of a pair that is not cached returns a case, it has sent
  exactly one request, and a second lookup of the same pair returns the same case and
  leaves the converter as it is (so it sends none), whatever the service would answer.
\<close>

theorem fetchTestCase_not_ok_falls_back:
  "(testCaseCache c (testTargetId @ '':'' @ testCaseId) = None
      \<and> http (caseRequests c) testTargetId testCaseId = Response False body
    \<longrightarrow> fetchTestCase http testTargetId testCaseId c =
         (Inr \<lparr>case_id = testCaseId, case_name = testCaseId, case_description = None,
                case_tags = Some [], case_externalId = None\<rparr>,
          c\<lparr>caseRequests := Suc (caseRequests c),
            testCaseCache := (testCaseCache c)(testTargetId @ '':'' @ testCaseId \<mapsto>
              \<lparr>case_id = testCaseId, case_name = testCaseId, case_description = None,
               case_tags = Some [], case_externalId = None\<rparr>)\<rparr>))
   \<and> (testCaseCache c (testTargetId @ '':'' @ testCaseId) = None
      \<and> fetchTestCase http testTargetId testCaseId c = (Inr testCase, c')
    \<longrightarrow> caseRequests c' = Suc (caseRequests c)
        \<and> fetchTestCase http' testTargetId testCaseId c' = (Inr testCase, c'))"
proof (intro conjI impI)
  assume "testCaseCache c (testTargetId @ '':'' @ testCaseId) = None
      \<and> http (caseRequests c) testTargetId testCaseId = Response False body"
  then show "fetchTestCase http testTargetId testCaseId c =
         (Inr \<lparr>case_id = testCaseId, case_name = testCaseId, case_description = None,
                case_tags = Some [], case_externalId = None\<rparr>,
          c\<lparr>caseRequests := Suc (caseRequests c),
            testCaseCache := (testCaseCache c)(testTargetId @ '':'' @ testCaseId \<mapsto>
              \<lparr>case_id = testCaseId, case_name = testCaseId, case_description = None,
               case_tags = Some [], case_externalId = None\<rparr>)\<rparr>)"
    by (simp add: fetchTestCase_def Let_def)
next
  assume a: "testCaseCache c (testTargetId @ '':'' @ testCaseId) = None
      \<and> fetchTestCase http testTargetId testCaseId c = (Inr testCase, c')"
  then have c': "caseRequests c' = Suc (caseRequests c)
      \<and> testCaseCache c' (testTargetId @ '':'' @ testCaseId) = Some testCase"
    by (auto simp: fetchTestCase_def Let_def split: response.splits if_splits option.splits)
  then show "caseRequests c' = Suc (caseRequests c)" by simp
  from c' show "fetchTestCase http' testTargetId testCaseId c' = (Inr testCase, c')"
    by (simp add: fetchTestCase_def Let_def)
qed

theorem fetchTestCase_not_ok_falls_back_witness:
  "fetchTestCase (caseServing (Response False None)) ''target-1'' ''case-9'' emptyConverter =
     (Inr \<lparr>case_id = ''case-9'', case_name = ''case-9'', case_description = None,
            case_tags = Some [], case_externalId = None\<rparr>,
      emptyConverter\<lparr>caseRequests := Suc 0,
        testCaseCache := (testCaseCache emptyConverter)(''target-1:case-9'' \<mapsto>
          \<lparr>case_id = ''case-9'', case_name = ''case-9'', case_description = None,
           case_tags = Some [], case_externalId = None\<rparr>)\<rparr>)
   \<and> fetchTestCase (caseServing Rejected) ''target-1'' ''case-9''
       (snd (fetchTestCase (caseServing (Response False None)) ''target-1'' ''case-9'' emptyConverter))
     = (Inr \<lparr>case_id = ''case-9'', case_name = ''case-9'', case_description = None,
            case_tags = Some [], case_externalId = None\<rparr>,
        snd (fetchTestCase (caseServing (Response False None)) ''target-1'' ''case-9'' emptyConverter))
   \<and> caseRequests
       (snd (fetchTestCase (caseServing (Response False None)) ''target-1'' ''case-9'' emptyConverter))
     = Suc 0"
proof -
  let ?syn = "\<lparr>case_id = ''case-9'', case_name = ''case-9'', case_description = None,
            case_tags = Some [], case_externalId = None\<rparr>"
  let ?c' = "emptyConverter\<lparr>caseRequests := Suc (caseRequests emptyConverter),
        testCaseCache := (testCaseCache emptyConverter)(''target-1'' @ '':'' @ ''case-9'' \<mapsto> ?syn)\<rparr>"
  have h1: "testCaseCache emptyConverter (''target-1'' @ '':'' @ ''case-9'') = None
      \<and> caseServing (Response False None) (caseRequests emptyConverter) ''target-1'' ''case-9''
          = Response False None"
    by (simp add: emptyConverter_def caseServing_def)
  have first: "fetchTestCase (caseServing (Response False None)) ''target-1'' ''case-9'' emptyConverter
      = (Inr ?syn, ?c')"
    by (rule mp[OF conjunct1[OF fetchTestCase_not_ok_falls_back[where c = emptyConverter
        and http = "caseServing (Response False None)" and testTargetId = "''target-1''"
        and testCaseId = "''case-9''" and body = None]] h1])
  have h2: "testCaseCache emptyConverter (''target-1'' @ '':'' @ ''case-9'') = None
      \<and> fetchTestCase (caseServing (Response False None)) ''target-1'' ''case-9'' emptyConverter
          = (Inr ?syn, ?c')"
    using h1 first by simp
  have second: "caseRequests ?c' = Suc (caseRequests emptyConverter)
      \<and> fetchTestCase (caseServing Rejected) ''target-1'' ''case-9'' ?c' = (Inr ?syn, ?c')"
    by (rule mp[OF conjunct2[OF fetchTestCase_not_ok_falls_back[where c = emptyConverter
        and http = "caseServing (Response False None)" and testTargetId = "''target-1''"
        and testCaseId = "''case-9''" and http' = "caseServing Rejected"]] h2])
  from first second show ?thesis by (simp add: emptyConverter_def)
qed

text \<open>
  Claim C9 as stated fails when the request is rejected (a network failure) or the body
  of an ok response is not JSON: \<open>fetchTestCase\<close> throws, and nothing is cached.
\<close>

theorem fetchTestCase_propagates_counterexample:
  "fst (fetchTestCase (caseServing Rejected) ''target-1'' ''case-9'' emptyConverter)
     = Inl NetworkError
   \<and> fst (fetchTestCase (caseServing (Response True None)) ''target-1'' ''case-9'' emptyConverter)
     = Inl JsonError
   \<and> testCaseCache
       (snd (fetchTestCase (caseServing Rejected) ''target-1'' ''case-9'' emptyConverter))
       ''target-1:case-9'' = None"
  by (simp add: fetchTestCase_def Let_def caseServing_def emptyConverter_def)

end
